theory Spec2Isabelle
  imports Complex_Main "HOL-Library.AList"
begin

section \<open>Time events and the scene's event ledger\<close>

text \<open>
  The scene keeps two \<^verbatim>\<open>Record<string, TimeEvent>\<close> objects. A JavaScript object
  enumerates its string keys in insertion order, an assignment to a key that is already
  there keeps its place, and a new key goes last: this is an association list with
  \<^const>\<open>AList.update\<close>, and \<^verbatim>\<open>Object.values\<close> is \<open>map snd\<close>. (Names that are
  canonical array indices come first in JavaScript; no statement below depends on the
  order of the entries.) Reading a name is \<^const>\<open>map_of\<close>: this is what the code does
  for every name but the few that a plain object inherits, which are treated apart
  below.
  A JavaScript \<^verbatim>\<open>number\<close> holding a time in seconds is a \<^typ>\<open>real\<close>, a frame index an
  \<^typ>\<open>int\<close>. The operations of this section compute in exact arithmetic; the rounding
  of floating point is added below, as a parameter. \<^verbatim>\<open>NaN\<close> is not modelled.
\<close>

datatype SceneState = Initial | AfterTransitionIn | CanTransitionOut | Finished

record TimeEvent =
  name :: string
  initialTime :: real
  targetTime :: real
  offset :: real

type_synonym EventLookup = "(string \<times> TimeEvent) list"

text \<open>
  The owning project is not part of the sources at hand; the scene uses its name, its
  current frame and its two conversions, which are fields here.
\<close>

record Project =
  projectName :: string
  frame :: int
  framesToSeconds :: "int \<Rightarrow> real"
  secondsToFrames :: "real \<Rightarrow> int"

text \<open>
  \<^verbatim>\<open>localStorage\<close> maps a key to a text. The scene only ever stores
  \<^verbatim>\<open>JSON.stringify(storedEventLookup)\<close> and reads it back with \<^verbatim>\<open>JSON.parse\<close>; a stored
  text is represented by the object it parses to.
\<close>

type_synonym LocalStorage = "string \<rightharpoonup> EventLookup"

record Scene =
  sceneName :: string
  firstFrame :: int
  transitionDuration :: int
  duration :: int
  storageKey :: string
  dispatched :: "TimeEvent list list"
  timeEventLookup :: EventLookup
  storedEventLookup :: EventLookup
  runnerFactory :: string
  state :: SceneState
  cached :: bool
  preserveEvents :: bool

definition lastFrame :: "Scene \<Rightarrow> int" where
  "lastFrame s = firstFrame s + duration s"

definition set_lastFrame :: "int \<Rightarrow> Scene \<Rightarrow> Scene" where
  "set_lastFrame v s = s\<lparr>duration := v - firstFrame s\<rparr>"

definition timeEvents :: "Scene \<Rightarrow> TimeEvent list" where
  "timeEvents s = map snd (timeEventLookup s)"

text \<open>\<^verbatim>\<open>timeEventsChanged.dispatch(payload)\<close>: the listeners are called at once, in order;
  the scene's \<open>dispatched\<close> field is the sequence of payloads they have received.\<close>

definition dispatch :: "TimeEvent list \<Rightarrow> Scene \<Rightarrow> Scene" where
  "dispatch payload s = s\<lparr>dispatched := dispatched s @ [payload]\<rparr>"

definition scene_key :: "string \<Rightarrow> string \<Rightarrow> string" where
  "scene_key pname sname = ''scene-'' @ pname @ ''-'' @ sname"

text \<open>The constructor. A scene runner is represented by its \<^verbatim>\<open>name\<close>; the layer
  configuration may override the name of the scene.\<close>

definition Scene_new :: "LocalStorage \<Rightarrow> Project \<Rightarrow> string \<Rightarrow> string option \<Rightarrow> Scene" where
  "Scene_new localStorage project runner config_name =
    (let nm = (case config_name of Some n \<Rightarrow> n | None \<Rightarrow> runner);
         key = scene_key (projectName project) nm;
         storedEvents = localStorage key
     in \<lparr>sceneName = nm, firstFrame = 0, transitionDuration = 0, duration = 0,
         storageKey = key, dispatched = [], timeEventLookup = [],
         storedEventLookup =
           (case storedEvents of
              None \<Rightarrow> []
            | Some doc \<Rightarrow> fold (\<lambda>event lk. AList.update (name event) event lk) (map snd doc) []),
         runnerFactory = runner, state = Initial, cached = False, preserveEvents = False\<rparr>)"

definition markAsCached :: "Scene \<Rightarrow> LocalStorage \<Rightarrow> Scene \<times> LocalStorage" where
  "markAsCached s localStorage =
    (s\<lparr>cached := True, preserveEvents := False\<rparr>,
     localStorage(storageKey s \<mapsto> storedEventLookup s))"

definition isMarkedAsCached :: "Scene \<Rightarrow> bool" where
  "isMarkedAsCached s = cached s"

definition reload :: "string option \<Rightarrow> Scene \<Rightarrow> Scene" where
  "reload new_runner s =
    (let s1 = (case new_runner of Some r \<Rightarrow> s\<lparr>runnerFactory := r\<rparr> | None \<Rightarrow> s);
         s2 = s1\<lparr>cached := False\<rparr>;
         s3 = s2\<lparr>storedEventLookup :=
                 fold (\<lambda>(k, e) lk. AList.update k e lk) (timeEventLookup s2) (storedEventLookup s2)\<rparr>;
         s4 = s3\<lparr>timeEventLookup := []\<rparr>
     in dispatch [] s4)"

text \<open>The recomputation both branches of \<^verbatim>\<open>getFrameEvent\<close> share: in preserve mode the
  target follows the offset, otherwise the offset follows the target and is clamped at 0.\<close>

definition retime :: "bool \<Rightarrow> TimeEvent \<Rightarrow> TimeEvent" where
  "retime preserve event =
    (if preserve then event\<lparr>targetTime := initialTime event + offset event\<rparr>
     else event\<lparr>offset := max 0 (targetTime event - initialTime event)\<rparr>)"

definition frame_of :: "Project \<Rightarrow> Scene \<Rightarrow> TimeEvent \<Rightarrow> int" where
  "frame_of project s event =
    firstFrame s + secondsToFrames project (initialTime event + offset event)"

definition getFrameEvent :: "Project \<Rightarrow> string \<Rightarrow> Scene \<Rightarrow> int \<times> Scene" where
  "getFrameEvent project nm s =
    (let initial = framesToSeconds project (frame project - firstFrame s) in
     case map_of (timeEventLookup s) nm of
       None \<Rightarrow>
         (let stored = map_of (storedEventLookup s) nm;
              event0 = \<lparr>name = nm, initialTime = initial,
                        targetTime = (case stored of Some st \<Rightarrow> targetTime st | None \<Rightarrow> initial),
                        offset = (case stored of Some st \<Rightarrow> offset st | None \<Rightarrow> 0)\<rparr>;
              event = (if stored \<noteq> None then retime (preserveEvents s) event0 else event0);
              s1 = s\<lparr>timeEventLookup := AList.update nm event (timeEventLookup s)\<rparr>;
              s2 = dispatch (timeEvents s1) s1
          in (frame_of project s2 event, s2))
     | Some live \<Rightarrow>
         if initialTime live \<noteq> initial then
           (let event = retime (preserveEvents s) (live\<lparr>initialTime := initial\<rparr>);
                s1 = s\<lparr>timeEventLookup := AList.update nm event (timeEventLookup s)\<rparr>;
                s2 = s1\<lparr>storedEventLookup := AList.update nm event (storedEventLookup s1)\<rparr>;
                s3 = dispatch (timeEvents s2) s2
            in (frame_of project s3 event, s3))
         else (frame_of project s live, s))"

definition setFrameEvent :: "string \<Rightarrow> real \<Rightarrow> bool \<Rightarrow> Scene \<Rightarrow> Scene" where
  "setFrameEvent nm off preserve s =
    (case map_of (timeEventLookup s) nm of
       None \<Rightarrow> s
     | Some live \<Rightarrow>
         if offset live = off then s
         else
           (let s1 = s\<lparr>cached := False\<rparr>;
                s2 = s1\<lparr>preserveEvents := preserve\<rparr>;
                event = live\<lparr>targetTime := initialTime live + off, offset := off\<rparr>;
                s3 = s2\<lparr>timeEventLookup := AList.update nm event (timeEventLookup s2)\<rparr>;
                s4 = s3\<lparr>storedEventLookup := AList.update nm event (storedEventLookup s3)\<rparr>
            in dispatch (timeEvents s4) s4))"


subsection \<open>Names that a plain object inherits\<close>

text \<open>
  The two ledgers are plain objects. Reading \<^verbatim>\<open>lookup[name]\<close> gives the event stored
  under the name, if there is one; if there is none, it gives what every object inherits
  from \<^verbatim>\<open>Object.prototype\<close> under that name, a function or an object; and \<^verbatim>\<open>undefined\<close>
  for every other name. The names that are not inherited are the ordinary ones: for them
  reading is \<^const>\<open>map_of\<close>, as in \<^const>\<open>getFrameEvent\<close> and \<^const>\<open>setFrameEvent\<close>.
\<close>

definition Object_prototype_names :: "string list" where
  "Object_prototype_names =
    [''constructor'', ''__defineGetter__'', ''__defineSetter__'', ''hasOwnProperty'',
     ''__lookupGetter__'', ''__lookupSetter__'', ''isPrototypeOf'', ''propertyIsEnumerable'',
     ''toString'', ''valueOf'', ''__proto__'', ''toLocaleString'']"

definition ordinary_name :: "string \<Rightarrow> bool" where
  "ordinary_name nm = (nm \<notin> set Object_prototype_names)"

datatype looked_up = Own TimeEvent | Inherited | Absent

definition get_property :: "EventLookup \<Rightarrow> string \<Rightarrow> looked_up" where
  "get_property lk nm =
    (case map_of lk nm of
       Some e \<Rightarrow> Own e
     | None \<Rightarrow> if ordinary_name nm then Absent else Inherited)"

text \<open>
  The test at the head of \<^verbatim>\<open>setFrameEvent\<close>,
  \<^verbatim>\<open>!this.timeEventLookup[name] || this.timeEventLookup[name].offset === offset\<close>, on the
  object as it is: \<^verbatim>\<open>undefined\<close> is falsy; an inherited member is truthy and has no
  \<^verbatim>\<open>offset\<close>, and \<^verbatim>\<open>undefined\<close> is not \<^verbatim>\<open>===\<close> to a number.
\<close>

definition setFrameEvent_returns_early :: "string \<Rightarrow> real \<Rightarrow> Scene \<Rightarrow> bool" where
  "setFrameEvent_returns_early nm off s =
    (case get_property (timeEventLookup s) nm of
       Absent \<Rightarrow> True
     | Inherited \<Rightarrow> False
     | Own live \<Rightarrow> offset live = off)"

text \<open>The flags \<open>cached\<close> and \<open>preserveEvents\<close> after \<^verbatim>\<open>setFrameEvent\<close>: as they were when
  the test makes the call return, and \<^verbatim>\<open>false\<close> and the argument otherwise.\<close>

definition setFrameEvent_flags :: "string \<Rightarrow> real \<Rightarrow> bool \<Rightarrow> Scene \<Rightarrow> bool \<times> bool" where
  "setFrameEvent_flags nm off preserve s =
    (if setFrameEvent_returns_early nm off s then (cached s, preserveEvents s)
     else (False, preserve))"

subsection \<open>Times in floating point\<close>

text \<open>
  Every \<^verbatim>\<open>+\<close> and \<^verbatim>\<open>-\<close> on times rounds its result. The operations on times once more,
  with the rounding \<open>rnd\<close> applied to each sum and difference of times as the source
  writes them (\<^verbatim>\<open>Math.max\<close> and the difference of the whole frame numbers do not
  round). With the identity for \<open>rnd\<close> they are the operations above.
\<close>

definition retime_rounded :: "(real \<Rightarrow> real) \<Rightarrow> bool \<Rightarrow> TimeEvent \<Rightarrow> TimeEvent" where
  "retime_rounded rnd preserve event =
    (if preserve then event\<lparr>targetTime := rnd (initialTime event + offset event)\<rparr>
     else event\<lparr>offset := max 0 (rnd (targetTime event - initialTime event))\<rparr>)"

definition frame_of_rounded :: "(real \<Rightarrow> real) \<Rightarrow> Project \<Rightarrow> Scene \<Rightarrow> TimeEvent \<Rightarrow> int" where
  "frame_of_rounded rnd project s event =
    firstFrame s + secondsToFrames project (rnd (initialTime event + offset event))"

definition getFrameEvent_rounded ::
  "(real \<Rightarrow> real) \<Rightarrow> Project \<Rightarrow> string \<Rightarrow> Scene \<Rightarrow> int \<times> Scene" where
  "getFrameEvent_rounded rnd project nm s =
    (let initial = framesToSeconds project (frame project - firstFrame s) in
     case map_of (timeEventLookup s) nm of
       None \<Rightarrow>
         (let stored = map_of (storedEventLookup s) nm;
              event0 = \<lparr>name = nm, initialTime = initial,
                        targetTime = (case stored of Some st \<Rightarrow> targetTime st | None \<Rightarrow> initial),
                        offset = (case stored of Some st \<Rightarrow> offset st | None \<Rightarrow> 0)\<rparr>;
              event = (if stored \<noteq> None then retime_rounded rnd (preserveEvents s) event0
                       else event0);
              s1 = s\<lparr>timeEventLookup := AList.update nm event (timeEventLookup s)\<rparr>;
              s2 = dispatch (timeEvents s1) s1
          in (frame_of_rounded rnd project s2 event, s2))
     | Some live \<Rightarrow>
         if initialTime live \<noteq> initial then
           (let event = retime_rounded rnd (preserveEvents s) (live\<lparr>initialTime := initial\<rparr>);
                s1 = s\<lparr>timeEventLookup := AList.update nm event (timeEventLookup s)\<rparr>;
                s2 = s1\<lparr>storedEventLookup := AList.update nm event (storedEventLookup s1)\<rparr>;
                s3 = dispatch (timeEvents s2) s2
            in (frame_of_rounded rnd project s3 event, s3))
         else (frame_of_rounded rnd project s live, s))"

definition setFrameEvent_rounded ::
  "(real \<Rightarrow> real) \<Rightarrow> string \<Rightarrow> real \<Rightarrow> bool \<Rightarrow> Scene \<Rightarrow> Scene" where
  "setFrameEvent_rounded rnd nm off preserve s =
    (case map_of (timeEventLookup s) nm of
       None \<Rightarrow> s
     | Some live \<Rightarrow>
         if offset live = off then s
         else
           (let s1 = s\<lparr>cached := False\<rparr>;
                s2 = s1\<lparr>preserveEvents := preserve\<rparr>;
                event = live\<lparr>targetTime := rnd (initialTime live + off), offset := off\<rparr>;
                s3 = s2\<lparr>timeEventLookup := AList.update nm event (timeEventLookup s2)\<rparr>;
                s4 = s3\<lparr>storedEventLookup := AList.update nm event (storedEventLookup s3)\<rparr>
            in dispatch (timeEvents s4) s4))"

text \<open>
  IEEE 754 double precision, rounding to the nearest number and a tie to the even one,
  for the numbers in the normal range (no overflow, no subnormal numbers): a number \<open>x\<close>
  with \<open>2\<^sup>e \<le> \<bar>x\<bar> < 2\<^sup>e\<^sup>+\<^sup>1\<close> is rounded to a multiple of \<open>2\<^sup>e\<^sup>-\<^sup>5\<^sup>2\<close>.
\<close>

definition round_half_even :: "real \<Rightarrow> int" where
  "round_half_even q =
    (let f = \<lfloor>q\<rfloor>; r = q - of_int f
     in if r < 1 / 2 then f else if 1 / 2 < r then f + 1 else if even f then f else f + 1)"

definition round_at :: "int \<Rightarrow> real \<Rightarrow> real" where
  "round_at e x = of_int (round_half_even (x / 2 powi (e - 52))) * 2 powi (e - 52)"

definition round_double :: "real \<Rightarrow> real" where
  "round_double x = (if x = 0 then 0 else round_at \<lfloor>log 2 \<bar>x\<bar>\<rfloor> x)"

subsection \<open>The states of a scene\<close>

text \<open>
  The ledgers are private: a scene's state is one that the constructor and the public
  operations produce. The other methods of the class change, of the fields above, only
  \<open>state\<close>; \<open>firstFrame\<close>, \<open>transitionDuration\<close> and \<open>duration\<close> are public. The states
  are those reached with ordinary names, in the stored texts and in the calls, whatever
  the rounding.
\<close>

definition ordinary_storage :: "LocalStorage \<Rightarrow> bool" where
  "ordinary_storage localStorage =
    (\<forall>key doc. localStorage key = Some doc \<longrightarrow> list_all (\<lambda>(k, e). ordinary_name (name e)) doc)"

inductive reachable :: "(real \<Rightarrow> real) \<Rightarrow> Scene \<Rightarrow> bool" for rnd :: "real \<Rightarrow> real" where
  constructed: "ordinary_storage localStorage \<Longrightarrow>
      reachable rnd (Scene_new localStorage project rn config_name)"
| marked: "reachable rnd s \<Longrightarrow> reachable rnd (fst (markAsCached s localStorage))"
| reloaded: "reachable rnd s \<Longrightarrow> reachable rnd (reload new_runner s)"
| queried: "reachable rnd s \<Longrightarrow> ordinary_name nm \<Longrightarrow>
      reachable rnd (snd (getFrameEvent_rounded rnd project nm s))"
| edited: "reachable rnd s \<Longrightarrow> ordinary_name nm \<Longrightarrow>
      reachable rnd (setFrameEvent_rounded rnd nm off preserve s)"
| moved: "reachable rnd s \<Longrightarrow> reachable rnd (s\<lparr>firstFrame := f\<rparr>)"
| stretched: "reachable rnd s \<Longrightarrow> reachable rnd (s\<lparr>duration := d\<rparr>)"
| transition_set: "reachable rnd s \<Longrightarrow> reachable rnd (s\<lparr>transitionDuration := d\<rparr>)"
| advanced: "reachable rnd s \<Longrightarrow> reachable rnd (s\<lparr>state := st\<rparr>)"

text \<open>Every entry of a ledger sits under its own name, once, and the name is ordinary.\<close>

definition well_keyed :: "EventLookup \<Rightarrow> bool" where
  "well_keyed lk =
    (distinct (map fst lk) \<and> list_all (\<lambda>(k, e). name e = k \<and> ordinary_name k) lk)"

text \<open>A live event is settled: its target is the rounded sum of its initial time and its
  offset, or its offset is the clamped, rounded difference of its target and its initial
  time.\<close>

definition settled :: "(real \<Rightarrow> real) \<Rightarrow> TimeEvent \<Rightarrow> bool" where
  "settled rnd e = (targetTime e = rnd (initialTime e + offset e)
                    \<or> offset e = max 0 (rnd (targetTime e - initialTime e)))"

definition ledger_ok :: "(real \<Rightarrow> real) \<Rightarrow> Scene \<Rightarrow> bool" where
  "ledger_ok rnd s = (well_keyed (timeEventLookup s) \<and> well_keyed (storedEventLookup s)
                      \<and> list_all (\<lambda>(k, e). settled rnd e) (timeEventLookup s))"


text \<open>
  Modelled from the spec: the project's conversions (\<^verbatim>\<open>Project\<close> is not among the sources)
  are "pure conversion between frame indices and seconds given a fixed frame rate"; a
  frame index is whole, so seconds are rounded up to the next frame.
\<close>

definition project_fps :: "string \<Rightarrow> real \<Rightarrow> int \<Rightarrow> Project" where
  "project_fps pname fps fr =
    \<lparr>projectName = pname, frame = fr,
     framesToSeconds = (\<lambda>frames. real_of_int frames / fps),
     secondsToFrames = (\<lambda>seconds. \<lceil>seconds * fps\<rceil>)\<rparr>"

text \<open>Modelled from the spec: the same conversions in floating point, each division and
  product rounded.\<close>

definition project_double :: "string \<Rightarrow> real \<Rightarrow> int \<Rightarrow> Project" where
  "project_double pname fps fr =
    \<lparr>projectName = pname, frame = fr,
     framesToSeconds = (\<lambda>frames. round_double (real_of_int frames / fps)),
     secondsToFrames = (\<lambda>seconds. \<lceil>round_double (seconds * fps)\<rceil>)\<rparr>"

section \<open>The scheduler step\<close>

text \<open>
  What a routine can yield: any JavaScript value. A promise carries the way it settles;
  awaiting a promise that stays pending never returns.
\<close>

datatype 'v settlement = Fulfilled 'v | Rejected 'v | Pending

datatype jsval =
    JUndefined
  | JNull
  | JBool bool
  | JNum real
  | JStr string
  | JObject nat
  | JPromise "jsval settlement"

text \<open>The test of \<^verbatim>\<open>while (result.value)\<close>: JavaScript's truthiness.\<close>

fun truthy :: "jsval \<Rightarrow> bool" where
  "truthy JUndefined = False"
| "truthy JNull = False"
| "truthy (JBool b) = b"
| "truthy (JNum x) = (x \<noteq> 0)"
| "truthy (JStr str) = (str \<noteq> [])"
| "truthy (JObject ref) = True"
| "truthy (JPromise p) = True"

text \<open>Modelled from the spec: \<^verbatim>\<open>isPromise\<close> comes from the threading module, which is not
  among the sources; it recognises the awaitables.\<close>

fun isPromise :: "jsval \<Rightarrow> bool" where
  "isPromise (JPromise p) = True"
| "isPromise v = False"

record IteratorResult =
  rvalue :: jsval
  rdone :: bool

datatype effect = LayoutPass | ConsoleWarn string "jsval list"

text \<open>
  What \<^verbatim>\<open>next\<close> and \<^verbatim>\<open>updateLayout\<close> act on besides the scene's own fields: the state
  of the running generator, the layout state of the inherited group, the active scene
  slot that \<^verbatim>\<open>setScene\<close> writes, and the calls made to the inherited layout pass and to
  the console, in order.
\<close>

record ('r, 'l) World =
  scene :: Scene
  runner :: 'r
  layout :: 'l
  activeScene :: "string option"
  effects :: "effect list"

text \<open>
  The collaborators are parameters: resuming the generator with a value (it may throw,
  \<open>Inl\<close>, and as it holds the scene it may change anything), the inherited
  \<^verbatim>\<open>updateLayout\<close>, and the dirty signal \<^verbatim>\<open>wasDirty\<close>.
\<close>

record ('r, 'l) Env =
  runner_next :: "jsval \<Rightarrow> ('r, 'l) World \<Rightarrow> jsval + (IteratorResult \<times> ('r, 'l) World)"
  super_updateLayout :: "'l \<Rightarrow> 'l"
  wasDirty :: "'l \<Rightarrow> bool \<times> 'l"

definition console_warn :: "string \<Rightarrow> jsval list \<Rightarrow> ('r, 'l) World \<Rightarrow> ('r, 'l) World" where
  "console_warn msg args w = w\<lparr>effects := effects w @ [ConsoleWarn msg args]\<rparr>"

definition layout_pass :: "('r, 'l) Env \<Rightarrow> ('r, 'l) World \<Rightarrow> ('r, 'l) World" where
  "layout_pass env w =
    w\<lparr>layout := super_updateLayout env (layout w), effects := effects w @ [LayoutPass]\<rparr>"

definition query_dirty :: "('r, 'l) Env \<Rightarrow> ('r, 'l) World \<Rightarrow> bool \<times> ('r, 'l) World" where
  "query_dirty env w = (let (d, l) = wasDirty env (layout w) in (d, w\<lparr>layout := l\<rparr>))"

text \<open>The loop \<^verbatim>\<open>while (this.wasDirty() && limit > 0)\<close>: the signal is asked first, also
  when the limit is used up. The result is the limit that is left.\<close>

fun layout_loop :: "('r, 'l) Env \<Rightarrow> nat \<Rightarrow> ('r, 'l) World \<Rightarrow> nat \<times> ('r, 'l) World" where
  "layout_loop env 0 w = (let (d, w1) = query_dirty env w in (0, w1))"
| "layout_loop env (Suc limit) w =
    (let (d, w1) = query_dirty env w in
     if d then layout_loop env limit (layout_pass env w1) else (Suc limit, w1))"

definition updateLayout :: "('r, 'l) Env \<Rightarrow> ('r, 'l) World \<Rightarrow> bool \<times> ('r, 'l) World" where
  "updateLayout env w =
    (let w1 = layout_pass env w;
         (result, w2) = query_dirty env w1;
         (limit, w3) = layout_loop env 10 w2;
         w4 = (if limit = 0 then console_warn ''Layout iteration limit exceeded'' [] w3 else w3)
     in (result, w4))"

text \<open>\<^verbatim>\<open>await v\<close>: a promise settles as it says, any other value is there at once.\<close>

fun await_value :: "jsval \<Rightarrow> jsval settlement" where
  "await_value (JPromise p) = p"
| "await_value v = Fulfilled v"

text \<open>
  The loop of \<^verbatim>\<open>next\<close>. It need not end (a routine can yield for ever, a promise can
  stay pending): \<open>None\<close> is a call that never returns, \<open>Some (Inl e)\<close> a call that
  throws \<open>e\<close> (a rejected promise, or the routine itself), \<open>Some (Inr w)\<close> a return.
\<close>

partial_function (option) next_loop ::
  "('r, 'l) Env \<Rightarrow> IteratorResult \<Rightarrow> ('r, 'l) World \<Rightarrow> (jsval + ('r, 'l) World) option" where
  "next_loop env result w =
    (if truthy (rvalue result) then
       (if isPromise (rvalue result) then
          (case await_value (rvalue result) of
             Fulfilled v \<Rightarrow>
               (case runner_next env v w of
                  Inl thrown \<Rightarrow> Some (Inl thrown)
                | Inr (result1, w1) \<Rightarrow> next_loop env result1 (snd (updateLayout env w1)))
           | Rejected reason \<Rightarrow> Some (Inl reason)
           | Pending \<Rightarrow> None)
        else
          (case runner_next env JUndefined
                  (console_warn ''Invalid value: '' [rvalue result] w) of
             Inl thrown \<Rightarrow> Some (Inl thrown)
           | Inr (result1, w1) \<Rightarrow> next_loop env result1 (snd (updateLayout env w1))))
     else
       Some (Inr (if rdone result then w\<lparr>scene := (scene w)\<lparr>state := Finished\<rparr>\<rparr> else w)))"

text \<open>The method \<^verbatim>\<open>next\<close> itself, named \<open>next_step\<close>: it makes the scene the
  active one, resumes the routine, runs the layout and enters the loop.\<close>

definition next_step :: "('r, 'l) Env \<Rightarrow> ('r, 'l) World \<Rightarrow> (jsval + ('r, 'l) World) option" where
  "next_step env w =
    (let w0 = w\<lparr>activeScene := Some (sceneName (scene w))\<rparr> in
     case runner_next env JUndefined w0 of
       Inl thrown \<Rightarrow> Some (Inl thrown)
     | Inr (result, w1) \<Rightarrow> next_loop env result (snd (updateLayout env w1)))"


section \<open>The stage\<close>

text \<open>
  Modelled from the spec: \<^verbatim>\<open>Vector2\<close>, \<^verbatim>\<open>Color\<close> and \<^verbatim>\<open>MoblurRenderer\<close> are not among the
  sources. A size is a width and a height, \<^verbatim>\<open>scale\<close> multiplies both and
  \<^verbatim>\<open>exactlyEquals\<close> compares both; a colour is known by the text it serializes to; the
  accumulator holds the size and the sample count it was built with or last given. An
  object created with \<^verbatim>\<open>new\<close> is told apart by its reference, drawn from a counter.
\<close>

record Vector2 =
  width :: real
  height :: real

definition scale :: "real \<Rightarrow> Vector2 \<Rightarrow> Vector2" where
  "scale k v = \<lparr>width = width v * k, height = height v * k\<rparr>"

definition exactlyEquals :: "Vector2 \<Rightarrow> Vector2 \<Rightarrow> bool" where
  "exactlyEquals a b = (width a = width b \<and> height a = height b)"

definition Vector2_zero :: Vector2 where
  "Vector2_zero = \<lparr>width = 0, height = 0\<rparr>"

datatype Color = Color string

fun serialize :: "Color \<Rightarrow> string" where
  "serialize (Color text) = text"

record MoblurRenderer =
  moblurRef :: nat
  moblurSize :: Vector2
  samples :: int

definition resize :: "Vector2 \<Rightarrow> MoblurRenderer \<Rightarrow> MoblurRenderer" where
  "resize v m = m\<lparr>moblurSize := v\<rparr>"

definition setSamples :: "int \<Rightarrow> MoblurRenderer \<Rightarrow> MoblurRenderer" where
  "setSamples k m = m\<lparr>samples := k\<rparr>"

datatype buffer = FinalBuffer | CurrentBuffer | PreviousBuffer

record Canvas =
  canvasWidth :: real
  canvasHeight :: real

record Context2D =
  canvas :: buffer
  contextColorSpace :: string

text \<open>Modelled from the spec: \<^verbatim>\<open>getContext\<close> comes from the utilities, which are not among
  the sources; \<^verbatim>\<open>getContext({colorSpace}, canvas)\<close> is a drawing context of the canvas in
  the colour space.\<close>

definition getContext :: "string \<Rightarrow> buffer \<Rightarrow> Context2D" where
  "getContext cs b = \<lparr>canvas = b, contextColorSpace = cs\<rparr>"

text \<open>The fields of the class; \<open>size\<close> and \<open>context\<close> carry a prime, the plain names
  being taken.\<close>

record Stage =
  background :: "string option"
  resolutionScale :: real
  colorSpace :: string
  size' :: Vector2
  motionBlurSamples :: int
  finalBuffer :: Canvas
  currentBuffer :: Canvas
  previousBuffer :: Canvas
  moblurRenderer :: "MoblurRenderer option"
  context' :: Context2D
  currentContext :: Context2D
  previousContext :: Context2D

datatype BackgroundValue = BackgroundColor Color | BackgroundString string | BackgroundNull

text \<open>\<^verbatim>\<open>Partial<StageSettings>\<close>: every setting may be left out.\<close>

record StageSettings =
  opt_size :: "Vector2 option"
  opt_motionBlur :: "int option"
  opt_resolutionScale :: "real option"
  opt_colorSpace :: "string option"
  opt_background :: "BackgroundValue option"

datatype log_line = Log string | LogValues string int bool

text \<open>The stage together with the reference counter and the console.\<close>

record StageWorld =
  stage :: Stage
  nextRef :: nat
  console :: "log_line list"

definition console_log :: "log_line \<Rightarrow> StageWorld \<Rightarrow> StageWorld" where
  "console_log line w = w\<lparr>console := console w @ [line]\<rparr>"

definition canvasSize :: "Stage \<Rightarrow> Vector2" where
  "canvasSize st = scale (resolutionScale st) (size' st)"

definition Stage_new :: Stage where
  "Stage_new =
    \<lparr>background = None, resolutionScale = 1, colorSpace = ''srgb'', size' = Vector2_zero,
     motionBlurSamples = 1,
     finalBuffer = \<lparr>canvasWidth = 300, canvasHeight = 150\<rparr>,
     currentBuffer = \<lparr>canvasWidth = 300, canvasHeight = 150\<rparr>,
     previousBuffer = \<lparr>canvasWidth = 300, canvasHeight = 150\<rparr>,
     moblurRenderer = None,
     context' = getContext ''srgb'' FinalBuffer,
     currentContext = getContext ''srgb'' CurrentBuffer,
     previousContext = getContext ''srgb'' PreviousBuffer\<rparr>"

definition resizeCanvas :: "Context2D \<Rightarrow> Stage \<Rightarrow> Stage" where
  "resizeCanvas ctx st =
    (let sz = canvasSize st;
         c = \<lparr>canvasWidth = width sz, canvasHeight = height sz\<rparr>
     in case canvas ctx of
          FinalBuffer \<Rightarrow> st\<lparr>finalBuffer := c\<rparr>
        | CurrentBuffer \<Rightarrow> st\<lparr>currentBuffer := c\<rparr>
        | PreviousBuffer \<Rightarrow> st\<lparr>previousBuffer := c\<rparr>)"

definition MoblurRenderer_new :: "Vector2 \<Rightarrow> int \<Rightarrow> StageWorld \<Rightarrow> MoblurRenderer \<times> StageWorld" where
  "MoblurRenderer_new v k w =
    (\<lparr>moblurRef = nextRef w, moblurSize = v, samples = k\<rparr>, w\<lparr>nextRef := Suc (nextRef w)\<rparr>)"

text \<open>
  \<^verbatim>\<open>configure\<close>, block by block in the order of the source: the colour space, the
  size and scale, the choice of the accumulator, the background, and the update of the
  accumulator. \<open>checkSupport\<close> is what the capability probe
  \<^verbatim>\<open>MoblurRenderer.checkSupport()\<close> answers.
\<close>

definition configure_colorSpace :: "string \<Rightarrow> Stage \<Rightarrow> Stage" where
  "configure_colorSpace colorSpace_arg st =
    (if colorSpace_arg \<noteq> colorSpace st then
       st\<lparr>colorSpace := colorSpace_arg,
          context' := getContext colorSpace_arg FinalBuffer,
          currentContext := getContext colorSpace_arg CurrentBuffer,
          previousContext := getContext colorSpace_arg PreviousBuffer\<rparr>
     else st)"

definition configure_size :: "Vector2 \<Rightarrow> real \<Rightarrow> Stage \<Rightarrow> Stage" where
  "configure_size size_arg resolutionScale_arg st =
    (if \<not> exactlyEquals size_arg (size' st) \<or> resolutionScale_arg \<noteq> resolutionScale st then
       (let a = st\<lparr>resolutionScale := resolutionScale_arg, size' := size_arg\<rparr>;
            b = resizeCanvas (context' a) a;
            c = resizeCanvas (currentContext b) b
        in resizeCanvas (previousContext c) c)
     else st)"

definition configure_moblur :: "bool \<Rightarrow> int \<Rightarrow> StageWorld \<Rightarrow> StageWorld" where
  "configure_moblur checkSupport motionBlur w =
    (if motionBlur \<le> 1 \<or> \<not> checkSupport then
       (let a = console_log (Log ''Moblur cleared'') w
        in a\<lparr>stage := (stage a)\<lparr>moblurRenderer := None\<rparr>\<rparr>)
     else if moblurRenderer (stage w) = None then
       (let a = console_log (Log ''Moblur setup'') w;
            (m, b) = MoblurRenderer_new (size' (stage a)) motionBlur a
        in b\<lparr>stage := (stage b)\<lparr>moblurRenderer := Some m\<rparr>\<rparr>)
     else w)"

definition configure_background :: "BackgroundValue \<Rightarrow> Stage \<Rightarrow> Stage" where
  "configure_background background_arg st =
    st\<lparr>background :=
         (case background_arg of
            BackgroundString text \<Rightarrow> Some text
          | BackgroundColor c \<Rightarrow> Some (serialize c)
          | BackgroundNull \<Rightarrow> None)\<rparr>"

definition configure_changed :: "int \<Rightarrow> StageWorld \<Rightarrow> StageWorld" where
  "configure_changed motionBlur w =
    (case moblurRenderer (stage w) of
       Some m \<Rightarrow>
         (let a = console_log (Log ''Moblur changed'') w
          in a\<lparr>stage := (stage a)\<lparr>moblurRenderer :=
                 Some (setSamples motionBlur (resize (size' (stage a)) m))\<rparr>\<rparr>)
     | None \<Rightarrow> w)"

text \<open>The sample count that a call works with: the option, or the field
  \<open>motionBlurSamples\<close> when the option is left out.\<close>

definition effective_motionBlur :: "StageSettings \<Rightarrow> Stage \<Rightarrow> int" where
  "effective_motionBlur options st =
    (case opt_motionBlur options of Some k \<Rightarrow> k | None \<Rightarrow> motionBlurSamples st)"

definition configure :: "bool \<Rightarrow> StageSettings \<Rightarrow> StageWorld \<Rightarrow> StageWorld" where
  "configure checkSupport options w =
    (let st = stage w;
         colorSpace_arg = (case opt_colorSpace options of Some c \<Rightarrow> c | None \<Rightarrow> colorSpace st);
         size_arg = (case opt_size options of Some v \<Rightarrow> v | None \<Rightarrow> size' st);
         resolutionScale_arg =
           (case opt_resolutionScale options of Some r \<Rightarrow> r | None \<Rightarrow> resolutionScale st);
         motionBlur = effective_motionBlur options st;
         background_arg =
           (case opt_background options of
              Some b \<Rightarrow> b
            | None \<Rightarrow> (case background st of Some text \<Rightarrow> BackgroundString text
                       | None \<Rightarrow> BackgroundNull));
         st1 = configure_colorSpace colorSpace_arg st;
         st2 = configure_size size_arg resolutionScale_arg st1;
         w1 = console_log (Log ''Configured'') (w\<lparr>stage := st2\<rparr>);
         w2 = console_log (LogValues ''Values'' motionBlur (\<not> checkSupport)) w1;
         w3 = configure_moblur checkSupport motionBlur w2;
         w4 = w3\<lparr>stage := configure_background background_arg (stage w3)\<rparr>
     in configure_changed motionBlur w4)"

text \<open>
  Rendering. The scene that the stage draws has a flag \<open>previousOnTop\<close>, read through
  \<^verbatim>\<open>unwrap\<close>, and a \<^verbatim>\<open>render\<close> method. What \<^verbatim>\<open>Stage.render\<close> does is the sequence
  of calls it makes, in order: the reading of the flag, the rendering of the scenes into
  their buffers (through the accumulator if there is one), and the calls on the drawing
  context of the final buffer. The value of the local \<^verbatim>\<open>previousOnTop\<close> is given beside
  them.
\<close>

record StageScene =
  sceneRef :: nat
  previousOnTop :: bool

datatype draw_target = OnContext | OnCurrentContext | OnPreviousContext

datatype call =
    Unwrap_previousOnTop nat
  | Moblur_render nat nat draw_target
  | Scene_render nat draw_target
  | ClearRect draw_target real real real real
  | Save draw_target
  | Set_fillStyle draw_target string
  | FillRect draw_target real real real real
  | Restore draw_target
  | DrawImage draw_target buffer real real

definition renderScene :: "Stage \<Rightarrow> StageScene \<Rightarrow> draw_target \<Rightarrow> call list" where
  "renderScene st sc ctx =
    (case moblurRenderer st of
       Some m \<Rightarrow> [Moblur_render (moblurRef m) (sceneRef sc) ctx]
     | None \<Rightarrow> [Scene_render (sceneRef sc) ctx])"

definition render :: "Stage \<Rightarrow> StageScene \<Rightarrow> StageScene option \<Rightarrow> bool \<times> call list" where
  "render st currentScene previousScene =
    (let (previousOnTop_v, c0) =
           (case previousScene of
              Some p \<Rightarrow> (previousOnTop currentScene, [Unwrap_previousOnTop (sceneRef currentScene)])
            | None \<Rightarrow> (False, []));
         c1 = (case previousScene of
                 Some p \<Rightarrow> renderScene st p OnPreviousContext
               | None \<Rightarrow> []);
         c2 = renderScene st currentScene OnCurrentContext;
         sz = canvasSize st;
         c3 = [ClearRect OnContext 0 0 (width sz) (height sz)];
         c4 = (case background st of
                 Some text \<Rightarrow>
                   if text \<noteq> [] then
                     [Save OnContext, Set_fillStyle OnContext text,
                      FillRect OnContext 0 0 (width sz) (height sz), Restore OnContext]
                   else []
               | None \<Rightarrow> []);
         c5 = (if previousScene \<noteq> None \<and> \<not> previousOnTop_v
               then [DrawImage OnContext PreviousBuffer 0 0] else []);
         c6 = [DrawImage OnContext CurrentBuffer 0 0];
         c7 = (if previousOnTop_v then [DrawImage OnContext PreviousBuffer 0 0] else [])
     in (previousOnTop_v, c0 @ c1 @ c2 @ c3 @ c4 @ c5 @ c6 @ c7))"


text \<open>The calls that draw on the final surface, and the four calls that fill it with a
  background (\<^verbatim>\<open>if (this.background)\<close>: a text that is not empty).\<close>

fun on_final :: "call \<Rightarrow> bool" where
  "on_final (ClearRect t a b c d) = (t = OnContext)"
| "on_final (Save t) = (t = OnContext)"
| "on_final (Set_fillStyle t text) = (t = OnContext)"
| "on_final (FillRect t a b c d) = (t = OnContext)"
| "on_final (Restore t) = (t = OnContext)"
| "on_final (DrawImage t b x y) = (t = OnContext)"
| "on_final (Moblur_render m sc t) = (t = OnContext)"
| "on_final (Scene_render sc t) = (t = OnContext)"
| "on_final (Unwrap_previousOnTop sc) = False"

definition fill_background :: "Stage \<Rightarrow> call list" where
  "fill_background st =
    (case background st of
       None \<Rightarrow> []
     | Some text \<Rightarrow>
         if text = [] then []
         else [Save OnContext, Set_fillStyle OnContext text,
               FillRect OnContext 0 0 (width (canvasSize st)) (height (canvasSize st)),
               Restore OnContext])"

section \<open>Example scenes, routines and stages\<close>

text \<open>A project at 30 frames per second standing at frame 0, and a new scene of 30 frames
  with nothing in the durable store.\<close>

definition demo_project :: Project where
  "demo_project = project_fps ''project'' 30 0"

definition demo_scene :: Scene where
  "demo_scene = (Scene_new Map.empty demo_project ''intro'' None)\<lparr>duration := 30\<rparr>"

text \<open>The same scene after the routine has asked for the event \<open>in\<close> and an editor has
  moved it by one second, not preserving.\<close>

definition edited_scene :: Scene where
  "edited_scene = setFrameEvent ''in'' 1 False (snd (getFrameEvent demo_project ''in'' demo_scene))"

text \<open>
  A scene in which the event \<open>in\<close> was moved by one second, preserving, and asked for
  again after a reload at frame 60; and the scene constructed from what
  \<^verbatim>\<open>markAsCached\<close> has stored of it.
\<close>

definition later_project :: Project where
  "later_project = project_fps ''project'' 30 60"

definition preserved_scene :: Scene where
  "preserved_scene =
    snd (getFrameEvent later_project ''in''
      (reload None (setFrameEvent ''in'' 1 True (snd (getFrameEvent demo_project ''in'' demo_scene)))))"

definition rebuilt_scene :: Scene where
  "rebuilt_scene =
    Scene_new (snd (markAsCached preserved_scene Map.empty)) later_project ''intro'' None"



definition double_project :: "int \<Rightarrow> Project" where
  "double_project fr = project_double ''project'' 30 fr"


text \<open>A routine that yields the values of a list, one at each resumption, and then
  finishes; a layout that is never dirty, and one that always is.\<close>

definition script_env :: "(jsval list, unit) Env" where
  "script_env =
    \<lparr>runner_next = (\<lambda>sent w. case runner w of
         [] \<Rightarrow> Inr (\<lparr>rvalue = JUndefined, rdone = True\<rparr>, w)
       | v # vs \<Rightarrow> Inr (\<lparr>rvalue = v, rdone = False\<rparr>, w\<lparr>runner := vs\<rparr>)),
     super_updateLayout = (\<lambda>l. l),
     wasDirty = (\<lambda>l. (False, l))\<rparr>"

definition restless_env :: "(jsval list, unit) Env" where
  "restless_env = script_env\<lparr>wasDirty := (\<lambda>l. (True, l))\<rparr>"

definition script_world :: "jsval list \<Rightarrow> (jsval list, unit) World" where
  "script_world vs =
    \<lparr>scene = demo_scene, runner = vs, layout = (), activeScene = None, effects = []\<rparr>"

text \<open>A new stage, and the settings that ask for a number of motion blur samples only.\<close>

definition new_stage_world :: StageWorld where
  "new_stage_world = \<lparr>stage = Stage_new, nextRef = 0, console = []\<rparr>"

definition blur_settings :: "int \<Rightarrow> StageSettings" where
  "blur_settings k =
    \<lparr>opt_size = None, opt_motionBlur = Some k, opt_resolutionScale = None,
     opt_colorSpace = None, opt_background = None\<rparr>"

section \<open>Properties of the event ledger\<close>

subsection \<open>Association lists\<close>

lemma update_fresh: "k \<notin> fst ` set al \<Longrightarrow> AList.update k v al = al @ [(k, v)]"
  by (induction al) auto


lemma list_all_update:
  "list_all P al \<Longrightarrow> P (k, v) \<Longrightarrow> list_all P (AList.update k v al)"
  by (induction al) auto

lemma list_all_map_of:
  "list_all (\<lambda>(k, e). P e) lk \<Longrightarrow> map_of lk k = Some e \<Longrightarrow> P e"
  by (auto dest!: map_of_SomeD simp: list_all_iff)

lemma well_keyed_Nil: "well_keyed []"
  by (simp add: well_keyed_def)

lemma well_keyed_update:
  "well_keyed lk \<Longrightarrow> name e = k \<Longrightarrow> ordinary_name k \<Longrightarrow> well_keyed (AList.update k e lk)"
  unfolding well_keyed_def by (simp add: distinct_update list_all_update)

lemma well_keyed_map_of:
  "well_keyed lk \<Longrightarrow> map_of lk k = Some e \<Longrightarrow> name e = k \<and> ordinary_name k"
  unfolding well_keyed_def by (auto dest!: map_of_SomeD simp: list_all_iff)

lemma well_keyed_fold_name:
  "well_keyed acc \<Longrightarrow> list_all (\<lambda>e. ordinary_name (name e)) es \<Longrightarrow>
   well_keyed (fold (\<lambda>event lk. AList.update (name event) event lk) es acc)"
  by (induction es arbitrary: acc) (simp_all add: well_keyed_update)

lemma well_keyed_fold_merge:
  "well_keyed acc \<Longrightarrow> list_all (\<lambda>(k, e). name e = k \<and> ordinary_name k) live \<Longrightarrow>
   well_keyed (fold (\<lambda>(k, e) lk. AList.update k e lk) live acc)"
  by (induction live arbitrary: acc) (auto simp: well_keyed_update)

text \<open>The spread \<^verbatim>\<open>{...stored, ...live}\<close> looks up like the map \<open>stored ++ live\<close>.\<close>

lemma map_of_fold_merge:
  "distinct (map fst live) \<Longrightarrow>
   map_of (fold (\<lambda>(k, e) lk. AList.update k e lk) live acc) = map_of acc ++ map_of live"
proof (induction live arbitrary: acc)
  case Nil
  then show ?case by simp
next
  case (Cons a live)
  obtain k e where a: "a = (k, e)" by (cases a)
  from Cons.prems a have k: "k \<notin> fst ` set live" and d: "distinct (map fst live)" by auto
  from k have none: "map_of live k = None" by (simp add: map_of_eq_None_iff)
  have swap: "(map_of acc)(k \<mapsto> e) ++ map_of live = map_of acc ++ (map_of live)(k \<mapsto> e)"
  proof (rule ext)
    fix x
    show "((map_of acc)(k \<mapsto> e) ++ map_of live) x = (map_of acc ++ (map_of live)(k \<mapsto> e)) x"
      using none by (cases "x = k") (simp_all add: map_add_def split: option.splits)
  qed
  have "map_of (fold (\<lambda>(k, e) lk. AList.update k e lk) (a # live) acc)
        = map_of (AList.update k e acc) ++ map_of live"
    using Cons.IH [OF d] a by simp
  also have "\<dots> = (map_of acc)(k \<mapsto> e) ++ map_of live"
    by (simp only: update_conv')
  also note swap
  also have "map_of acc ++ (map_of live)(k \<mapsto> e) = map_of acc ++ map_of (a # live)"
    using a by simp
  finally show ?case .
qed

text \<open>Reading a well-keyed ledger back entry by entry, each under its own name, as the
  constructor does, rebuilds it.\<close>

lemma fold_name_rebuild:
  "well_keyed (acc @ lk) \<Longrightarrow>
   fold (\<lambda>event l. AList.update (name event) event l) (map snd lk) acc = acc @ lk"
proof (induction lk arbitrary: acc)
  case Nil
  then show ?case by simp
next
  case (Cons a lk)
  obtain k e where a: "a = (k, e)" by (cases a)
  from Cons.prems a have nm: "name e = k" and fresh: "k \<notin> fst ` set acc"
    by (auto simp: well_keyed_def)
  from Cons.prems a have "well_keyed ((acc @ [(k, e)]) @ lk)" by simp
  from Cons.IH [OF this] nm fresh a show ?case
    by (simp add: update_fresh)
qed

subsection \<open>Exact arithmetic is rounding with the identity\<close>

lemma retime_exact: "retime_rounded (\<lambda>x. x) = retime"
  by (intro ext) (simp add: retime_rounded_def retime_def)

lemma frame_of_exact: "frame_of_rounded (\<lambda>x. x) = frame_of"
  by (intro ext) (simp add: frame_of_rounded_def frame_of_def)

lemma getFrameEvent_exact: "getFrameEvent_rounded (\<lambda>x. x) = getFrameEvent"
  unfolding getFrameEvent_rounded_def getFrameEvent_def retime_exact frame_of_exact
  by (rule refl)

lemma setFrameEvent_exact: "setFrameEvent_rounded (\<lambda>x. x) = setFrameEvent"
  by (intro ext) (simp add: setFrameEvent_rounded_def setFrameEvent_def)

subsection \<open>Ordinary names\<close>

text \<open>For an ordinary name the test of \<^verbatim>\<open>setFrameEvent\<close> on the object is the test on the
  association list, and the flags are those of \<^const>\<open>setFrameEvent\<close>; when the test holds,
  the call changes nothing.\<close>

lemma setFrameEvent_returns_early_ordinary:
  "ordinary_name nm \<Longrightarrow>
   setFrameEvent_returns_early nm off s =
     (case map_of (timeEventLookup s) nm of None \<Rightarrow> True | Some live \<Rightarrow> offset live = off)"
  by (simp add: setFrameEvent_returns_early_def get_property_def split: option.splits)

lemma setFrameEvent_flags_ordinary:
  "ordinary_name nm \<Longrightarrow>
   setFrameEvent_flags nm off pr s =
     (cached (setFrameEvent nm off pr s), preserveEvents (setFrameEvent nm off pr s))"
  by (simp add: setFrameEvent_flags_def setFrameEvent_returns_early_ordinary setFrameEvent_def
      dispatch_def Let_def split: option.splits)

lemma setFrameEvent_early_ordinary:
  "ordinary_name nm \<Longrightarrow> setFrameEvent_returns_early nm off s \<Longrightarrow>
   setFrameEvent nm off pr s = s"
  by (simp add: setFrameEvent_returns_early_ordinary setFrameEvent_def split: option.splits)

lemma ordinary_in: "ordinary_name ''in''"
  by (simp add: ordinary_name_def Object_prototype_names_def)

subsection \<open>The ledger invariant\<close>

lemma settled_retime: "settled rnd (retime_rounded rnd b e)"
  unfolding settled_def retime_rounded_def by auto

lemma name_retime: "name (retime_rounded rnd b e) = name e"
  unfolding retime_rounded_def by simp

lemma initialTime_retime: "initialTime (retime b e) = initialTime e"
  unfolding retime_def by simp

lemma ledger_ok_new:
  assumes "ordinary_storage localStorage"
  shows "ledger_ok rnd (Scene_new localStorage project rn config_name)"
proof -
  have "well_keyed (fold (\<lambda>event lk. AList.update (name event) event lk) (map snd doc) [])"
    if "localStorage key = Some doc" for key doc
  proof -
    from assms that have "list_all (\<lambda>(k, e). ordinary_name (name e)) doc"
      by (simp add: ordinary_storage_def)
    then have "list_all (\<lambda>e. ordinary_name (name e)) (map snd doc)"
      by (induction doc) auto
    with well_keyed_Nil show ?thesis by (rule well_keyed_fold_name)
  qed
  then show ?thesis
    unfolding ledger_ok_def Scene_new_def
    by (simp add: Let_def well_keyed_Nil split: option.splits)
qed

lemma ledger_ok_reload:
  assumes "ledger_ok rnd s" shows "ledger_ok rnd (reload r s)"
proof -
  from assms have l: "well_keyed (timeEventLookup s)" and st: "well_keyed (storedEventLookup s)"
    by (simp_all add: ledger_ok_def)
  from l have "list_all (\<lambda>(k, e). name e = k \<and> ordinary_name k) (timeEventLookup s)"
    by (simp add: well_keyed_def)
  with st have "well_keyed (fold (\<lambda>(k, e) lk. AList.update k e lk) (timeEventLookup s) (storedEventLookup s))"
    by (rule well_keyed_fold_merge)
  then show ?thesis
    unfolding ledger_ok_def reload_def dispatch_def
    by (simp add: Let_def well_keyed_Nil split: option.splits)
qed

lemma ledger_ok_getFrameEvent:
  assumes "ledger_ok rnd s" and zero: "rnd 0 = 0" and on: "ordinary_name n"
  shows "ledger_ok rnd (snd (getFrameEvent_rounded rnd p n s))"
proof (cases "map_of (timeEventLookup s) n")
  case None
  define stored where "stored = map_of (storedEventLookup s) n"
  define i where "i = framesToSeconds p (frame p - firstFrame s)"
  define event0 where "event0 = \<lparr>name = n, initialTime = i,
       targetTime = (case stored of Some st \<Rightarrow> targetTime st | None \<Rightarrow> i),
       offset = (case stored of Some st \<Rightarrow> offset st | None \<Rightarrow> 0)\<rparr>"
  define event where "event = (if stored \<noteq> None then retime_rounded rnd (preserveEvents s) event0 else event0)"
  have nm: "name event = n"
    by (simp add: event_def event0_def name_retime)
  have se: "settled rnd event"
  proof (cases stored)
    case None
    with zero show ?thesis by (simp add: event_def event0_def settled_def)
  next
    case (Some st)
    then show ?thesis by (simp add: event_def settled_retime)
  qed
  have eq: "snd (getFrameEvent_rounded rnd p n s) =
      dispatch (timeEvents (s\<lparr>timeEventLookup := AList.update n event (timeEventLookup s)\<rparr>))
        (s\<lparr>timeEventLookup := AList.update n event (timeEventLookup s)\<rparr>)"
    using None unfolding event_def event0_def stored_def i_def
    by (simp add: getFrameEvent_rounded_def Let_def)
  from assms(1) nm se on show ?thesis
    unfolding eq ledger_ok_def dispatch_def
    by (simp add: well_keyed_update list_all_update)
next
  case (Some live)
  show ?thesis
  proof (cases "initialTime live = framesToSeconds p (frame p - firstFrame s)")
    case True
    with Some assms(1) show ?thesis by (simp add: getFrameEvent_rounded_def Let_def)
  next
    case False
    define event where "event = retime_rounded rnd (preserveEvents s)
       (live\<lparr>initialTime := framesToSeconds p (frame p - firstFrame s)\<rparr>)"
    from assms(1) Some have "name live = n"
      by (auto simp: ledger_ok_def dest: well_keyed_map_of)
    then have nm: "name event = n" by (simp add: event_def name_retime)
    have se: "settled rnd event" by (simp add: event_def settled_retime)
    from assms(1) nm se on Some False show ?thesis
      unfolding ledger_ok_def getFrameEvent_rounded_def dispatch_def
      by (simp add: Let_def well_keyed_update list_all_update event_def [symmetric])
  qed
qed

lemma ledger_ok_setFrameEvent:
  assumes "ledger_ok rnd s" and on: "ordinary_name n"
  shows "ledger_ok rnd (setFrameEvent_rounded rnd n off pr s)"
proof (cases "map_of (timeEventLookup s) n")
  case None
  with assms show ?thesis by (simp add: setFrameEvent_rounded_def)
next
  case (Some live)
  define event where "event = live\<lparr>targetTime := rnd (initialTime live + off), offset := off\<rparr>"
  from assms Some have "name live = n"
    by (auto simp: ledger_ok_def dest: well_keyed_map_of)
  then have nm: "name event = n" by (simp add: event_def)
  have se: "settled rnd event" by (simp add: event_def settled_def)
  from assms nm se Some show ?thesis
    unfolding ledger_ok_def setFrameEvent_rounded_def dispatch_def
    by (simp add: Let_def well_keyed_update list_all_update event_def [symmetric])
qed

lemma reachable_ledger_ok: "reachable rnd s \<Longrightarrow> rnd 0 = 0 \<Longrightarrow> ledger_ok rnd s"
proof (induction rule: reachable.induct)
  case (constructed localStorage project rn config_name)
  then show ?case by (simp add: ledger_ok_new)
next
  case (marked s localStorage)
  then show ?case by (simp add: markAsCached_def ledger_ok_def)
next
  case (reloaded s new_runner)
  then show ?case by (simp add: ledger_ok_reload)
next
  case (queried s nm project)
  then show ?case by (simp add: ledger_ok_getFrameEvent)
next
  case (edited s nm off preserve)
  then show ?case by (simp add: ledger_ok_setFrameEvent)
qed (simp_all add: ledger_ok_def)

text \<open>The keys of the ledgers do not depend on the arithmetic.\<close>

lemma reachable_well_keyed:
  "reachable rnd s \<Longrightarrow> well_keyed (timeEventLookup s) \<and> well_keyed (storedEventLookup s)"
proof (induction rule: reachable.induct)
  case (constructed localStorage project rn config_name)
  then show ?case using ledger_ok_new [of localStorage rnd project rn config_name]
    by (simp add: ledger_ok_def)
next
  case (marked s localStorage)
  then show ?case by (simp add: markAsCached_def)
next
  case (reloaded s new_runner)
  then have l: "well_keyed (timeEventLookup s)" and st: "well_keyed (storedEventLookup s)"
    by simp_all
  from l have "list_all (\<lambda>(k, e). name e = k \<and> ordinary_name k) (timeEventLookup s)"
    by (simp add: well_keyed_def)
  with st have "well_keyed (fold (\<lambda>(k, e) lk. AList.update k e lk) (timeEventLookup s) (storedEventLookup s))"
    by (rule well_keyed_fold_merge)
  then show ?case
    by (simp add: reload_def dispatch_def Let_def well_keyed_Nil split: option.splits)
next
  case (queried s nm project)
  then have l: "well_keyed (timeEventLookup s)" and st: "well_keyed (storedEventLookup s)"
    by simp_all
  show ?case
  proof (cases "map_of (timeEventLookup s) nm")
    case None
    with l st queried.hyps(2) show ?thesis
      by (simp add: getFrameEvent_rounded_def Let_def dispatch_def well_keyed_update name_retime)
  next
    case (Some live)
    with l have "name live = nm" by (auto dest: well_keyed_map_of)
    with Some l st queried.hyps(2) show ?thesis
      by (simp add: getFrameEvent_rounded_def Let_def dispatch_def well_keyed_update name_retime)
  qed
next
  case (edited s nm off preserve)
  then have l: "well_keyed (timeEventLookup s)" and st: "well_keyed (storedEventLookup s)"
    by simp_all
  show ?case
  proof (cases "map_of (timeEventLookup s) nm")
    case None
    with l st show ?thesis by (simp add: setFrameEvent_rounded_def)
  next
    case (Some live)
    with l have "name live = nm" by (auto dest: well_keyed_map_of)
    with Some l st edited.hyps(2) show ?thesis
      by (simp add: setFrameEvent_rounded_def Let_def dispatch_def well_keyed_update)
  qed
qed simp_all

text \<open>The storage key is fixed at construction and has the form
  \<open>scene-{project}-{sceneName}\<close>.\<close>

lemma getFrameEvent_key:
  "storageKey (snd (getFrameEvent_rounded rnd p n s)) = storageKey s"
  "sceneName (snd (getFrameEvent_rounded rnd p n s)) = sceneName s"
  by (simp_all add: getFrameEvent_rounded_def Let_def dispatch_def split: option.splits)

lemma setFrameEvent_key:
  "storageKey (setFrameEvent_rounded rnd n off pr s) = storageKey s"
  "sceneName (setFrameEvent_rounded rnd n off pr s) = sceneName s"
  by (simp_all add: setFrameEvent_rounded_def Let_def dispatch_def split: option.splits)

lemma reload_key:
  "storageKey (reload r s) = storageKey s"
  "sceneName (reload r s) = sceneName s"
  by (simp_all add: reload_def Let_def dispatch_def split: option.splits)

lemma reachable_storageKey:
  "reachable rnd s \<Longrightarrow> \<exists>pname. storageKey s = scene_key pname (sceneName s)"
proof (induction rule: reachable.induct)
  case (constructed localStorage project rn config_name)
  show ?case by (auto simp: Scene_new_def Let_def)
qed (simp_all add: markAsCached_def getFrameEvent_key setFrameEvent_key reload_key)

subsection \<open>The example scenes\<close>

lemma demo_scene_eq:
  "demo_scene =
    \<lparr>sceneName = ''intro'', firstFrame = 0, transitionDuration = 0, duration = 30,
     storageKey = ''scene-project-intro'', dispatched = [], timeEventLookup = [],
     storedEventLookup = [], runnerFactory = ''intro'', state = Initial, cached = False,
     preserveEvents = False\<rparr>"
  by (simp add: demo_scene_def demo_project_def project_fps_def Scene_new_def scene_key_def Let_def)

lemma demo_project_simps:
  "frame demo_project = 0"
  "framesToSeconds demo_project f = real_of_int f / 30"
  "secondsToFrames demo_project x = \<lceil>x * 30\<rceil>"
  "projectName demo_project = ''project''"
  by (simp_all add: demo_project_def project_fps_def)

lemma reachable_demo_scene: "reachable rnd demo_scene"
  unfolding demo_scene_def by (intro reachable.intros) (simp add: ordinary_storage_def)

lemma edited_scene_eq:
  "edited_scene =
    \<lparr>sceneName = ''intro'', firstFrame = 0, transitionDuration = 0, duration = 30,
     storageKey = ''scene-project-intro'',
     dispatched = [[\<lparr>name = ''in'', initialTime = 0, targetTime = 0, offset = 0\<rparr>],
                   [\<lparr>name = ''in'', initialTime = 0, targetTime = 1, offset = 1\<rparr>]],
     timeEventLookup = [(''in'', \<lparr>name = ''in'', initialTime = 0, targetTime = 1, offset = 1\<rparr>)],
     storedEventLookup = [(''in'', \<lparr>name = ''in'', initialTime = 0, targetTime = 1, offset = 1\<rparr>)],
     runnerFactory = ''intro'', state = Initial, cached = False, preserveEvents = False\<rparr>"
  by (simp add: edited_scene_def demo_scene_eq demo_project_simps getFrameEvent_def
      setFrameEvent_def dispatch_def timeEvents_def frame_of_def Let_def)

subsection \<open>Rounding, evaluated\<close>

lemma round_double_at:
  assumes "2 powi e \<le> \<bar>x\<bar>" and "\<bar>x\<bar> < 2 powi (e + 1)"
  shows "round_double x = round_at e x"
proof -
  have pos: "0 < \<bar>x\<bar>" using assms(1) by (smt (verit) zero_less_power_int)
  have a: "(2::real) powr real_of_int e = 2 powi e"
    by (rule powr_real_of_int') simp_all
  have b: "(2::real) powr real_of_int (e + 1) = 2 powi (e + 1)"
    by (rule powr_real_of_int') simp_all
  have "(\<lfloor>log 2 \<bar>x\<bar>\<rfloor> = e) = (2 powr real_of_int e \<le> \<bar>x\<bar> \<and> \<bar>x\<bar> < 2 powr real_of_int (e + 1))"
    using pos by (intro floor_log_eq_powr_iff) simp_all
  with assms have "\<lfloor>log 2 \<bar>x\<bar>\<rfloor> = e"
    by (simp only: a b)
  with pos show ?thesis by (simp add: round_double_def)
qed

lemma round_double_0: "round_double 0 = 0"
  by (simp add: round_double_def)

lemma round_double_1: "round_double 1 = 1"
  by (subst round_double_at [of 0])
     (simp_all add: round_at_def round_half_even_def power_int_minus Let_def)




lemma double_project_simps:
  "frame (double_project fr) = fr"
  "framesToSeconds (double_project fr) f = round_double (real_of_int f / 30)"
  "secondsToFrames (double_project fr) x = \<lceil>round_double (x * 30)\<rceil>"
  "projectName (double_project fr) = ''project''"
  by (simp_all add: double_project_def project_double_def)

text \<open>At frame 0 the rounded operations build the scene that the exact ones build.\<close>

lemma edited_scene_double:
  "setFrameEvent_rounded round_double ''in'' 1 False
     (snd (getFrameEvent_rounded round_double (double_project 0) ''in'' demo_scene)) = edited_scene"
  by (simp add: edited_scene_eq demo_scene_eq double_project_simps getFrameEvent_rounded_def
      setFrameEvent_rounded_def dispatch_def timeEvents_def Let_def round_double_0 round_double_1)

lemma reachable_edited_scene: "reachable round_double edited_scene"
  unfolding edited_scene_double [symmetric]
  by (intro reachable.intros reachable_demo_scene ordinary_in)



subsection \<open>Queries\<close>

lemma getFrameEvent_lookup:
  "\<exists>e. map_of (timeEventLookup (snd (getFrameEvent p n s))) n = Some e
     \<and> initialTime e = framesToSeconds p (frame p - firstFrame s)
     \<and> firstFrame (snd (getFrameEvent p n s)) = firstFrame s
     \<and> fst (getFrameEvent p n s) = firstFrame s + secondsToFrames p (initialTime e + offset e)"
proof (cases "map_of (timeEventLookup s) n")
  case None
  then show ?thesis
    by (simp add: getFrameEvent_def Let_def update_conv' dispatch_def frame_of_def initialTime_retime)
next
  case (Some live)
  then show ?thesis
    by (simp add: getFrameEvent_def Let_def update_conv' dispatch_def frame_of_def initialTime_retime)
qed



text \<open>
  Claim C10: when \<^verbatim>\<open>getFrameEvent(name)\<close> is called twice with the project's frame, and so
  the computed initial time, unchanged in between, the second call returns the frame of the
  first and leaves the scene as the first call left it: both ledgers, the flags and the
  notifications sent are the same.
\<close>

theorem getFrameEvent_twice:
  "fst (getFrameEvent p n (snd (getFrameEvent p n s))) = fst (getFrameEvent p n s)
   \<and> snd (getFrameEvent p n (snd (getFrameEvent p n s))) = snd (getFrameEvent p n s)"
proof -
  obtain e where e: "map_of (timeEventLookup (snd (getFrameEvent p n s))) n = Some e"
    and i: "initialTime e = framesToSeconds p (frame p - firstFrame s)"
    and f: "firstFrame (snd (getFrameEvent p n s)) = firstFrame s"
    and r: "fst (getFrameEvent p n s) = firstFrame s + secondsToFrames p (initialTime e + offset e)"
    using getFrameEvent_lookup by blast
  have "getFrameEvent p n (snd (getFrameEvent p n s)) =
        (frame_of p (snd (getFrameEvent p n s)) e, snd (getFrameEvent p n s))"
    using e i f by (subst getFrameEvent_def) (simp add: Let_def)
  moreover have "frame_of p (snd (getFrameEvent p n s)) e = fst (getFrameEvent p n s)"
    using r f by (simp add: frame_of_def)
  ultimately show ?thesis by simp
qed

theorem getFrameEvent_twice_witness:
  "fst (getFrameEvent demo_project ''in'' edited_scene) = 30
   \<and> fst (getFrameEvent demo_project ''in'' (snd (getFrameEvent demo_project ''in'' edited_scene))) = 30
   \<and> snd (getFrameEvent demo_project ''in'' (snd (getFrameEvent demo_project ''in'' edited_scene)))
       = edited_scene"
  using getFrameEvent_twice [of demo_project "''in''" edited_scene]
  by (simp add: edited_scene_eq demo_project_simps getFrameEvent_def frame_of_def Let_def)

subsection \<open>Edits\<close>



text \<open>
  Claim C4, at a name the code misses: the scene holds no live event \<open>toString\<close>, yet the
  ledger object inherits a member of that name, so the test of
  \<^verbatim>\<open>setFrameEvent("toString", 5, true)\<close> does not make the call return; on a scene that
  was marked as cached the call clears the cached flag and switches preserve mode on.
\<close>

theorem setFrameEvent_inherited_name:
  "map_of (timeEventLookup demo_scene) ''toString'' = None
   \<and> get_property (timeEventLookup demo_scene) ''toString'' = Inherited
   \<and> \<not> setFrameEvent_returns_early ''toString'' 5 (fst (markAsCached demo_scene Map.empty))
   \<and> (cached (fst (markAsCached demo_scene Map.empty)),
       preserveEvents (fst (markAsCached demo_scene Map.empty))) = (True, False)
   \<and> setFrameEvent_flags ''toString'' 5 True (fst (markAsCached demo_scene Map.empty))
       = (False, True)"
  by (simp add: demo_scene_eq markAsCached_def setFrameEvent_flags_def
      setFrameEvent_returns_early_def get_property_def ordinary_name_def
      Object_prototype_names_def)

subsection \<open>Reloading and caching\<close>

text \<open>What a reload followed by a query of a live name does, whatever the rounding.\<close>

lemma reload_then_query:
  assumes zero: "rnd 0 = 0"
    and r: "reachable rnd s"
    and live: "map_of (timeEventLookup s) n = Some e"
    and np: "\<not> preserveEvents s"
    and same: "framesToSeconds p (frame p - firstFrame s) = initialTime e"
  shows "timeEventLookup (reload rf s) = []"
    and "map_of (storedEventLookup (reload rf s)) n = Some e"
    and "\<exists>e'. map_of (timeEventLookup (snd (getFrameEvent_rounded rnd p n (reload rf s)))) n = Some e'
            \<and> targetTime e' = targetTime e
            \<and> offset e' = max 0 (rnd (targetTime e - initialTime e))"
    and "settled rnd e"
proof -
  from r zero have ok: "ledger_ok rnd s" by (rule reachable_ledger_ok)
  then have d: "distinct (map fst (timeEventLookup s))"
    by (simp add: ledger_ok_def well_keyed_def)
  from ok live show "settled rnd e"
    unfolding ledger_ok_def by (auto dest: list_all_map_of)
  show lv: "timeEventLookup (reload rf s) = []"
    by (simp add: reload_def Let_def dispatch_def split: option.splits)
  show st: "map_of (storedEventLookup (reload rf s)) n = Some e"
    using live by (simp add: reload_def Let_def dispatch_def map_of_fold_merge [OF d] split: option.splits)
  have pe: "\<not> preserveEvents (reload rf s)"
    using np by (simp add: reload_def Let_def dispatch_def split: option.splits)
  have ff: "firstFrame (reload rf s) = firstFrame s"
    by (simp add: reload_def Let_def dispatch_def split: option.splits)
  from st lv pe same ff
  show "\<exists>e'. map_of (timeEventLookup (snd (getFrameEvent_rounded rnd p n (reload rf s)))) n = Some e'
            \<and> targetTime e' = targetTime e
            \<and> offset e' = max 0 (rnd (targetTime e - initialTime e))"
    by (simp add: getFrameEvent_rounded_def Let_def dispatch_def update_conv' retime_rounded_def)
qed




text \<open>In exact arithmetic the offset always comes back.\<close>

lemma reload_roundtrip_exact:
  assumes "reachable (\<lambda>x. x) s" and "map_of (timeEventLookup s) n = Some e"
    and "0 \<le> offset e" and "\<not> preserveEvents s"
    and "framesToSeconds p (frame p - firstFrame s) = initialTime e"
  shows "\<exists>e'. map_of (timeEventLookup (snd (getFrameEvent p n (reload rf s)))) n = Some e'
            \<and> offset e' = offset e"
proof -
  note facts = reload_then_query [of "\<lambda>x. x", OF refl assms(1,2,4,5)]
  from facts(4) assms(3) have "max 0 (targetTime e - initialTime e) = offset e"
    by (auto simp: settled_def)
  with facts(3) [of rf] show ?thesis by (auto simp add: getFrameEvent_exact)
qed

lemma preserved_scene_eq:
  "preserved_scene =
    \<lparr>sceneName = ''intro'', firstFrame = 0, transitionDuration = 0, duration = 30,
     storageKey = ''scene-project-intro'',
     dispatched = [[\<lparr>name = ''in'', initialTime = 0, targetTime = 0, offset = 0\<rparr>],
                   [\<lparr>name = ''in'', initialTime = 0, targetTime = 1, offset = 1\<rparr>],
                   [],
                   [\<lparr>name = ''in'', initialTime = 2, targetTime = 3, offset = 1\<rparr>]],
     timeEventLookup = [(''in'', \<lparr>name = ''in'', initialTime = 2, targetTime = 3, offset = 1\<rparr>)],
     storedEventLookup = [(''in'', \<lparr>name = ''in'', initialTime = 0, targetTime = 1, offset = 1\<rparr>)],
     runnerFactory = ''intro'', state = Initial, cached = False, preserveEvents = True\<rparr>"
  by (simp add: preserved_scene_def later_project_def project_fps_def demo_scene_eq
      demo_project_simps getFrameEvent_def setFrameEvent_def reload_def retime_def dispatch_def
      timeEvents_def frame_of_def Let_def)

lemma rebuilt_scene_eq:
  "rebuilt_scene =
    \<lparr>sceneName = ''intro'', firstFrame = 0, transitionDuration = 0, duration = 0,
     storageKey = ''scene-project-intro'', dispatched = [], timeEventLookup = [],
     storedEventLookup = [(''in'', \<lparr>name = ''in'', initialTime = 0, targetTime = 1, offset = 1\<rparr>)],
     runnerFactory = ''intro'', state = Initial, cached = False, preserveEvents = False\<rparr>"
  by (simp add: rebuilt_scene_def preserved_scene_eq markAsCached_def Scene_new_def scene_key_def
      later_project_def project_fps_def Let_def)

text \<open>
  A scene holds the live event \<open>in\<close> with initial time 2, target 3 and offset 1, made
  in preserve mode from the stored event with target 1; all the times are whole seconds,
  exact in floating point too. \<^verbatim>\<open>markAsCached()\<close> stores the durable ledger only. The scene
  constructed from the store under the same key has no live event; asked for \<open>in\<close> at the
  same frame 60 it makes an event with target 1 and offset 0 and answers frame 60, where
  the original scene answers frame 90.
\<close>

theorem markAsCached_live_counterexample:
  "timeEvents (fst (markAsCached preserved_scene Map.empty))
     = [\<lparr>name = ''in'', initialTime = 2, targetTime = 3, offset = 1\<rparr>]
   \<and> storageKey rebuilt_scene = storageKey preserved_scene
   \<and> timeEvents rebuilt_scene = []
   \<and> fst (getFrameEvent later_project ''in'' (fst (markAsCached preserved_scene Map.empty))) = 90
   \<and> fst (getFrameEvent later_project ''in'' rebuilt_scene) = 60
   \<and> timeEvents (snd (getFrameEvent later_project ''in'' rebuilt_scene))
       = [\<lparr>name = ''in'', initialTime = 2, targetTime = 1, offset = 0\<rparr>]"
  by (simp add: preserved_scene_eq rebuilt_scene_eq markAsCached_def timeEvents_def
      getFrameEvent_def retime_def frame_of_def dispatch_def later_project_def project_fps_def
      Let_def)

text \<open>
  Claim C5, amended: for a scene reached with ordinary names, \<^verbatim>\<open>markAsCached()\<close> writes
  the durable ledger to the store under the scene's key, which has the form
  \<open>scene-{project}-{sceneName}\<close>, so that a scene constructed afterwards with the same key
  starts with a durable ledger equal to that of the scene at the time of the call; the
  live ledger is not stored. \<^verbatim>\<open>markAsCached()\<close> leaves both ledgers of the scene as they
  are, sets the cached flag and switches preserve mode off.
\<close>

theorem markAsCached_persists:
  assumes "reachable rnd s"
    and "scene_key (projectName project) (case config_name of Some c \<Rightarrow> c | None \<Rightarrow> rn)
           = storageKey s"
  shows "storedEventLookup (Scene_new (snd (markAsCached s ls)) project rn config_name)
           = storedEventLookup s
       \<and> timeEventLookup (Scene_new (snd (markAsCached s ls)) project rn config_name) = []
       \<and> snd (markAsCached s ls) (storageKey s) = Some (storedEventLookup s)
       \<and> (\<exists>pname. storageKey s = scene_key pname (sceneName s))
       \<and> storedEventLookup (fst (markAsCached s ls)) = storedEventLookup s
       \<and> timeEventLookup (fst (markAsCached s ls)) = timeEventLookup s
       \<and> cached (fst (markAsCached s ls)) \<and> \<not> preserveEvents (fst (markAsCached s ls))"
proof -
  from assms(1) have "well_keyed ([] @ storedEventLookup s)"
    using reachable_well_keyed by simp
  from fold_name_rebuild [OF this] assms(2)
  have "storedEventLookup (Scene_new (snd (markAsCached s ls)) project rn config_name)
           = storedEventLookup s"
    by (simp add: markAsCached_def Scene_new_def Let_def)
  moreover from assms(1) have "\<exists>pname. storageKey s = scene_key pname (sceneName s)"
    by (rule reachable_storageKey)
  ultimately show ?thesis
    by (simp add: markAsCached_def Scene_new_def Let_def)
qed

theorem markAsCached_persists_witness:
  "reachable round_double edited_scene
   \<and> storageKey edited_scene = ''scene-project-intro''
   \<and> storageKey (Scene_new (snd (markAsCached edited_scene Map.empty)) demo_project ''intro'' None)
       = ''scene-project-intro''
   \<and> storedEventLookup (Scene_new (snd (markAsCached edited_scene Map.empty)) demo_project ''intro'' None)
       = [(''in'', \<lparr>name = ''in'', initialTime = 0, targetTime = 1, offset = 1\<rparr>)]
   \<and> cached (fst (markAsCached edited_scene Map.empty))"
proof -
  have key: "scene_key (projectName demo_project) (case None of Some c \<Rightarrow> c | None \<Rightarrow> ''intro'')
      = storageKey edited_scene"
    by (simp add: edited_scene_eq demo_project_simps scene_key_def)
  have "storageKey (Scene_new (snd (markAsCached edited_scene Map.empty)) demo_project ''intro'' None)
       = ''scene-project-intro''"
    by (simp add: Scene_new_def Let_def scene_key_def demo_project_simps)
  with markAsCached_persists [OF reachable_edited_scene key, of Map.empty] reachable_edited_scene
  show ?thesis by (simp add: edited_scene_eq)
qed

section \<open>Properties of the scheduler step\<close>

subsection \<open>The layout retry loop\<close>

lemma effects_query_dirty: "effects (snd (query_dirty env w)) = effects w"
  by (simp add: query_dirty_def split: prod.splits)

lemma effects_layout_pass: "effects (layout_pass env w) = effects w @ [LayoutPass]"
  by (simp add: layout_pass_def)

text \<open>The loop makes as many passes as it takes from the limit.\<close>

lemma layout_loop_effects:
  "\<exists>k\<le>limit. fst (layout_loop env limit w) = limit - k
      \<and> effects (snd (layout_loop env limit w)) = effects w @ replicate k LayoutPass"
proof (induction limit arbitrary: w)
  case 0
  obtain d w1 where q: "query_dirty env w = (d, w1)" by (cases "query_dirty env w")
  then have "effects w1 = effects w" using effects_query_dirty [of env w] by simp
  with q show ?case by simp
next
  case (Suc limit)
  obtain d w1 where q: "query_dirty env w = (d, w1)" by (cases "query_dirty env w")
  then have e1: "effects w1 = effects w" using effects_query_dirty [of env w] by simp
  show ?case
  proof (cases d)
    case False
    with q e1 show ?thesis by (intro exI [of _ 0]) simp
  next
    case True
    from Suc.IH [of "layout_pass env w1"] obtain k where k: "k \<le> limit"
      and f: "fst (layout_loop env limit (layout_pass env w1)) = limit - k"
      and e: "effects (snd (layout_loop env limit (layout_pass env w1)))
               = effects (layout_pass env w1) @ replicate k LayoutPass"
      by blast
    from k f e q e1 True show ?thesis
      by (intro exI [of _ "Suc k"]) (simp add: effects_layout_pass replicate_append_same)
  qed
qed

lemma layout_loop_always_dirty:
  assumes "\<And>l. fst (wasDirty env l)"
  shows "fst (layout_loop env limit w) = 0
      \<and> effects (snd (layout_loop env limit w)) = effects w @ replicate limit LayoutPass"
proof (induction limit arbitrary: w)
  case 0
  obtain d w1 where q: "query_dirty env w = (d, w1)" by (cases "query_dirty env w")
  then have "effects w1 = effects w" using effects_query_dirty [of env w] by simp
  with q show ?case by simp
next
  case (Suc limit)
  obtain d w1 where q: "query_dirty env w = (d, w1)" by (cases "query_dirty env w")
  then have e1: "effects w1 = effects w" using effects_query_dirty [of env w] by simp
  from q assms [of "layout w"] have d by (auto simp: query_dirty_def split: prod.splits)
  with q e1 Suc.IH [of "layout_pass env w1"] show ?case
    by (simp add: effects_layout_pass replicate_append_same)
qed

text \<open>
  Claim C7: whatever the dirty signal answers, \<^verbatim>\<open>updateLayout()\<close> returns after the first
  layout pass and at most 10 more, and warns when it has made all 10; when the signal
  answers true every time, it makes exactly 10 passes after the first and then logs the
  warning.
\<close>

theorem updateLayout_bounded:
  "(\<exists>k\<le>10. effects (snd (updateLayout env w)) =
       effects w @ replicate (Suc k) LayoutPass
         @ (if k = 10 then [ConsoleWarn ''Layout iteration limit exceeded'' []] else []))
   \<and> ((\<forall>l. fst (wasDirty env l)) \<longrightarrow>
        effects (snd (updateLayout env w)) =
          effects w @ replicate 11 LayoutPass @ [ConsoleWarn ''Layout iteration limit exceeded'' []])"
proof -
  define w1 where "w1 = layout_pass env w"
  obtain result w2 where q: "query_dirty env w1 = (result, w2)" by (cases "query_dirty env w1")
  then have e2: "effects w2 = effects w @ [LayoutPass]"
    using effects_query_dirty [of env w1] by (simp add: w1_def effects_layout_pass)
  obtain limit w3 where l: "layout_loop env 10 w2 = (limit, w3)" by (cases "layout_loop env 10 w2")
  have u: "effects (snd (updateLayout env w)) =
      effects w3 @ (if limit = 0 then [ConsoleWarn ''Layout iteration limit exceeded'' []] else [])"
    using q l by (simp add: updateLayout_def Let_def w1_def [symmetric] console_warn_def)
  have first: "\<exists>k\<le>10. effects (snd (updateLayout env w)) =
       effects w @ replicate (Suc k) LayoutPass
         @ (if k = 10 then [ConsoleWarn ''Layout iteration limit exceeded'' []] else [])"
  proof -
    from layout_loop_effects [of 10 env w2] l obtain k where k: "k \<le> 10"
      and f: "limit = 10 - k" and e: "effects w3 = effects w2 @ replicate k LayoutPass"
      by auto
    from k f have "(limit = 0) = (k = 10)" by arith
    with u e e2 k show ?thesis
      by (intro exI [of _ k]) (simp add: replicate_append_same)
  qed
  have second: "effects (snd (updateLayout env w)) =
          effects w @ replicate 11 LayoutPass @ [ConsoleWarn ''Layout iteration limit exceeded'' []]"
    if "\<forall>l. fst (wasDirty env l)"
  proof -
    from that layout_loop_always_dirty [of env 10 w2] l
    have "limit = 0" and "effects w3 = effects w2 @ replicate 10 LayoutPass" by auto
    with u e2 show ?thesis by (simp add: eval_nat_numeral)
  qed
  from first second show ?thesis by blast
qed

theorem updateLayout_bounded_witness:
  "(\<forall>l. fst (wasDirty restless_env l))
   \<and> effects (snd (updateLayout restless_env (script_world []))) =
     replicate 11 LayoutPass @ [ConsoleWarn ''Layout iteration limit exceeded'' []]"
proof -
  have "\<forall>l. fst (wasDirty restless_env l)" by (simp add: restless_env_def)
  with updateLayout_bounded [of restless_env "script_world []"] show ?thesis
    by (simp add: script_world_def)
qed

subsection \<open>Yielded values\<close>

lemma runner_next_script:
  "runner_next script_env sent w =
    (case runner w of
       [] \<Rightarrow> Inr (\<lparr>rvalue = JUndefined, rdone = True\<rparr>, w)
     | v # vs \<Rightarrow> Inr (\<lparr>rvalue = v, rdone = False\<rparr>, w\<lparr>runner := vs\<rparr>))"
  by (simp add: script_env_def)

lemma updateLayout_script:
  "updateLayout script_env w = (False, w\<lparr>effects := effects w @ [LayoutPass]\<rparr>)"
  by (simp add: updateLayout_def layout_pass_def query_dirty_def script_env_def eval_nat_numeral)

text \<open>
  A routine yields the number 0 and would yield more: 0 is no promise and no control
  token, yet the step returns with the one layout pass it always makes, without a
  diagnostic and without resuming the routine, whose next value stays where it was.
\<close>

theorem next_falsy_counterexample:
  "\<not> isPromise (JNum 0)
   \<and> next_step script_env (script_world [JNum 0, JStr ''late'']) =
       Some (Inr ((script_world [JStr ''late''])
                    \<lparr>activeScene := Some ''intro'', effects := [LayoutPass]\<rparr>))"
  by (simp add: next_step_def runner_next_script updateLayout_script script_world_def
        next_loop.simps demo_scene_eq)

text \<open>
  Claim C6, amended: for every yielded value that is truthy and no promise, the step logs
  \<open>Invalid value:\<close> with the value, resumes the routine with no value, runs the layout
  and goes on with the loop on what the routine answers; a yielded value that is falsy
  (\<^verbatim>\<open>undefined\<close>, \<^verbatim>\<open>null\<close>, \<^verbatim>\<open>false\<close>, \<^verbatim>\<open>0\<close>, the empty string) ends the step with no
  diagnostic, and the scene is finished if the routine is done.
\<close>

theorem next_invalid_value:
  "(truthy (rvalue result) \<and> \<not> isPromise (rvalue result) \<longrightarrow>
      next_loop env result w =
        (case runner_next env JUndefined (console_warn ''Invalid value: '' [rvalue result] w) of
           Inl thrown \<Rightarrow> Some (Inl thrown)
         | Inr (result1, w1) \<Rightarrow> next_loop env result1 (snd (updateLayout env w1))))
   \<and> (\<not> truthy (rvalue result) \<longrightarrow>
      next_loop env result w =
        Some (Inr (if rdone result then w\<lparr>scene := (scene w)\<lparr>state := Finished\<rparr>\<rparr> else w)))"
  by (subst next_loop.simps, subst (3) next_loop.simps) simp

theorem next_invalid_value_witness:
  "truthy (JStr ''oops'') \<and> \<not> isPromise (JStr ''oops'')
   \<and> next_loop script_env \<lparr>rvalue = JStr ''oops'', rdone = False\<rparr> (script_world []) =
       Some (Inr ((script_world [])
          \<lparr>scene := (scene (script_world []))\<lparr>state := Finished\<rparr>,
           effects := [ConsoleWarn ''Invalid value: '' [JStr ''oops''], LayoutPass]\<rparr>))
   \<and> \<not> truthy (JNum 0)
   \<and> next_loop script_env \<lparr>rvalue = JNum 0, rdone = False\<rparr> (script_world []) =
       Some (Inr (script_world []))"
  using next_invalid_value [of "\<lparr>rvalue = JStr ''oops'', rdone = False\<rparr>" script_env "script_world []"]
    next_invalid_value [of "\<lparr>rvalue = JNum 0, rdone = False\<rparr>" script_env "script_world []"]
    next_invalid_value [of "\<lparr>rvalue = JUndefined, rdone = True\<rparr>" script_env
       "(script_world [])\<lparr>effects := [ConsoleWarn ''Invalid value: '' [JStr ''oops''], LayoutPass]\<rparr>"]
  by (simp add: runner_next_script updateLayout_script script_world_def console_warn_def)

text \<open>
  A whole step: when every value that a routine yields before it finishes is truthy and
  no promise, the step returns, with one diagnostic and one layout run for each value in
  turn, and the scene is finished.
\<close>

lemma next_loop_script_run:
  assumes "\<forall>v\<in>set (v0 # vs). truthy v \<and> \<not> isPromise v" and "runner w = vs"
  shows "next_loop script_env \<lparr>rvalue = v0, rdone = False\<rparr> w =
    Some (Inr (w\<lparr>scene := (scene w)\<lparr>state := Finished\<rparr>, runner := [],
                 effects := effects w
                   @ concat (map (\<lambda>v. [ConsoleWarn ''Invalid value: '' [v], LayoutPass]) (v0 # vs))\<rparr>))"
  using assms
proof (induction vs arbitrary: v0 w)
  case Nil
  then show ?case
    by (simp add: next_loop.simps runner_next_script updateLayout_script console_warn_def)
next
  case (Cons v vs)
  let ?w1 = "w\<lparr>runner := vs, effects := effects w @ [ConsoleWarn ''Invalid value: '' [v0], LayoutPass]\<rparr>"
  from Cons.prems have step: "next_loop script_env \<lparr>rvalue = v0, rdone = False\<rparr> w =
      next_loop script_env \<lparr>rvalue = v, rdone = False\<rparr> ?w1"
    by (subst next_loop.simps) (simp add: runner_next_script updateLayout_script console_warn_def)
  from Cons.prems have "\<forall>x\<in>set (v # vs). truthy x \<and> \<not> isPromise x" and "runner ?w1 = vs"
    by simp_all
  from Cons.IH [OF this] step show ?case by simp
qed

section \<open>Properties of the stage\<close>

subsection \<open>Compositing\<close>

text \<open>
  Claim C8: in \<^verbatim>\<open>render(currentScene, previousScene)\<close> the calls on the final surface are:
  the clearing first; then the filling with the background, if one is set; then the
  drawing of the buffers, the previous before the current when \<open>previousOnTop\<close> is false
  and after it when it is true, and the current alone when no previous scene is given.
  The flag of the current scene is read if and only if a previous scene is given; without
  one \<open>previousOnTop\<close> is false and the flag of the current scene does not matter.
\<close>

theorem render_order:
  "fst (render st cur prev) = (case prev of Some p \<Rightarrow> previousOnTop cur | None \<Rightarrow> False)
   \<and> (Unwrap_previousOnTop (sceneRef cur) \<in> set (snd (render st cur prev))) = (prev \<noteq> None)
   \<and> render st (cur\<lparr>previousOnTop := b\<rparr>) None = render st cur None
   \<and> filter on_final (snd (render st cur prev)) =
       ClearRect OnContext 0 0 (width (canvasSize st)) (height (canvasSize st))
       # fill_background st
       @ (case prev of
            None \<Rightarrow> [DrawImage OnContext CurrentBuffer 0 0]
          | Some p \<Rightarrow>
              if previousOnTop cur
              then [DrawImage OnContext CurrentBuffer 0 0, DrawImage OnContext PreviousBuffer 0 0]
              else [DrawImage OnContext PreviousBuffer 0 0, DrawImage OnContext CurrentBuffer 0 0])"
  by (cases prev; cases "moblurRenderer st"; cases "background st")
     (simp_all add: render_def renderScene_def fill_background_def Let_def)

theorem render_order_witness:
  "filter on_final (snd (render (Stage_new\<lparr>background := Some ''#141414''\<rparr>)
       \<lparr>sceneRef = 2, previousOnTop = True\<rparr> (Some \<lparr>sceneRef = 1, previousOnTop = False\<rparr>))) =
     [ClearRect OnContext 0 0 0 0, Save OnContext, Set_fillStyle OnContext ''#141414'',
      FillRect OnContext 0 0 0 0, Restore OnContext,
      DrawImage OnContext CurrentBuffer 0 0, DrawImage OnContext PreviousBuffer 0 0]
   \<and> filter on_final (snd (render Stage_new
       \<lparr>sceneRef = 2, previousOnTop = False\<rparr> (Some \<lparr>sceneRef = 1, previousOnTop = False\<rparr>))) =
     [ClearRect OnContext 0 0 0 0,
      DrawImage OnContext PreviousBuffer 0 0, DrawImage OnContext CurrentBuffer 0 0]
   \<and> render Stage_new \<lparr>sceneRef = 2, previousOnTop = True\<rparr> None =
     (False, [Scene_render 2 OnCurrentContext, ClearRect OnContext 0 0 0 0,
              DrawImage OnContext CurrentBuffer 0 0])"
  using render_order [of "Stage_new\<lparr>background := Some ''#141414''\<rparr>"
      "\<lparr>sceneRef = 2, previousOnTop = True\<rparr>" "Some \<lparr>sceneRef = 1, previousOnTop = False\<rparr>" True]
    render_order [of Stage_new
      "\<lparr>sceneRef = 2, previousOnTop = False\<rparr>" "Some \<lparr>sceneRef = 1, previousOnTop = False\<rparr>" True]
    render_order [of Stage_new "\<lparr>sceneRef = 2, previousOnTop = False\<rparr>" None True]
  by (simp add: fill_background_def Stage_new_def canvasSize_def scale_def Vector2_zero_def
      render_def renderScene_def)

subsection \<open>The motion blur accumulator\<close>

lemma resizeCanvas_fields [simp]:
  "moblurRenderer (resizeCanvas ctx st) = moblurRenderer st"
  "size' (resizeCanvas ctx st) = size' st"
  by (simp_all add: resizeCanvas_def Let_def split: buffer.splits)

lemma configure_colorSpace_moblur [simp]:
  "moblurRenderer (configure_colorSpace c st) = moblurRenderer st"
  by (simp add: configure_colorSpace_def)

lemma configure_size_moblur [simp]:
  "moblurRenderer (configure_size v r st) = moblurRenderer st"
  by (simp add: configure_size_def Let_def)

lemma configure_background_fields [simp]:
  "moblurRenderer (configure_background b st) = moblurRenderer st"
  "size' (configure_background b st) = size' st"
  by (simp_all add: configure_background_def)

lemma configure_moblur_result:
  "moblurRenderer (stage (configure_moblur support k w)) =
     (if k \<le> 1 \<or> \<not> support then None
      else case moblurRenderer (stage w) of
             None \<Rightarrow> Some \<lparr>moblurRef = nextRef w, moblurSize = size' (stage w), samples = k\<rparr>
           | Some m \<Rightarrow> Some m)"
  "nextRef (configure_moblur support k w) =
     (if 1 < k \<and> support \<and> moblurRenderer (stage w) = None then Suc (nextRef w) else nextRef w)"
  "size' (stage (configure_moblur support k w)) = size' (stage w)"
  by (auto simp: configure_moblur_def console_log_def MoblurRenderer_new_def Let_def)

lemma configure_changed_result:
  "moblurRenderer (stage (configure_changed k w)) =
     map_option (\<lambda>m. m\<lparr>moblurSize := size' (stage w), samples := k\<rparr>) (moblurRenderer (stage w))"
  "nextRef (configure_changed k w) = nextRef w"
  "size' (stage (configure_changed k w)) = size' (stage w)"
  by (auto simp: configure_changed_def console_log_def resize_def setSamples_def Let_def
      split: option.splits)

text \<open>What \<^verbatim>\<open>configure\<close> leaves in the accumulator field and in the reference counter.\<close>

lemma configure_result:
  "moblurRenderer (stage (configure support opts w)) =
     (if effective_motionBlur opts (stage w) \<le> 1 \<or> \<not> support then None
      else Some (case moblurRenderer (stage w) of
                   None \<Rightarrow> \<lparr>moblurRef = nextRef w,
                             moblurSize = size' (stage (configure support opts w)),
                             samples = effective_motionBlur opts (stage w)\<rparr>
                 | Some m \<Rightarrow> m\<lparr>moblurSize := size' (stage (configure support opts w)),
                                samples := effective_motionBlur opts (stage w)\<rparr>))"
  "nextRef (configure support opts w) =
     (if 1 < effective_motionBlur opts (stage w) \<and> support \<and> moblurRenderer (stage w) = None
      then Suc (nextRef w) else nextRef w)"
  by (simp_all add: configure_def Let_def configure_changed_result configure_moblur_result
        console_log_def split: option.splits)

text \<open>
  Claim C9: after \<^verbatim>\<open>configure(options)\<close> the stage has an accumulator if and only if the
  sample count the call works with is greater than 1 and the capability probe reports
  support; and when the stage had an accumulator before the call and has one after it,
  it is the same object (the same reference, none newly created), with the size of the
  stage and the new sample count.
\<close>

theorem configure_moblur_kept:
  "(moblurRenderer (stage (configure support opts w)) \<noteq> None) =
     (1 < effective_motionBlur opts (stage w) \<and> support)
   \<and> (\<forall>m m'. moblurRenderer (stage w) = Some m
         \<and> moblurRenderer (stage (configure support opts w)) = Some m' \<longrightarrow>
         moblurRef m' = moblurRef m
         \<and> nextRef (configure support opts w) = nextRef w
         \<and> m' = m\<lparr>moblurSize := size' (stage (configure support opts w)),
                   samples := effective_motionBlur opts (stage w)\<rparr>)"
proof -
  have a: "(moblurRenderer (stage (configure support opts w)) \<noteq> None) =
     (1 < effective_motionBlur opts (stage w) \<and> support)"
    by (subst configure_result) auto
  have b: "moblurRef m' = moblurRef m
         \<and> nextRef (configure support opts w) = nextRef w
         \<and> m' = m\<lparr>moblurSize := size' (stage (configure support opts w)),
                   samples := effective_motionBlur opts (stage w)\<rparr>"
    if "moblurRenderer (stage w) = Some m"
      and "moblurRenderer (stage (configure support opts w)) = Some m'" for m m'
  proof -
    from that(2) have "m' = m\<lparr>moblurSize := size' (stage (configure support opts w)),
                   samples := effective_motionBlur opts (stage w)\<rparr>"
      by (subst (asm) configure_result) (simp add: that(1) split: if_splits)
    moreover have "nextRef (configure support opts w) = nextRef w"
      by (simp add: configure_result that(1))
    ultimately show ?thesis by simp
  qed
  from a b show ?thesis by blast
qed

lemma configure_blur_new:
  "moblurRenderer (stage (configure True (blur_settings 4) new_stage_world))
     = Some \<lparr>moblurRef = 0, moblurSize = Vector2_zero, samples = 4\<rparr>"
  "nextRef (configure True (blur_settings 4) new_stage_world) = 1"
  "size' (stage (configure True (blur_settings 4) new_stage_world)) = Vector2_zero"
  by (simp_all add: configure_def Let_def configure_changed_result configure_moblur_result
      console_log_def effective_motionBlur_def blur_settings_def new_stage_world_def
      Stage_new_def configure_colorSpace_def configure_size_def exactlyEquals_def)

theorem configure_moblur_kept_witness:
  "moblurRenderer (stage (configure True (blur_settings 4) new_stage_world))
     = Some \<lparr>moblurRef = 0, moblurSize = Vector2_zero, samples = 4\<rparr>
   \<and> moblurRenderer (stage (configure True (blur_settings 8)
        (configure True (blur_settings 4) new_stage_world)))
     = Some \<lparr>moblurRef = 0, moblurSize = Vector2_zero, samples = 8\<rparr>
   \<and> nextRef (configure True (blur_settings 8) (configure True (blur_settings 4) new_stage_world)) = 1
   \<and> moblurRenderer (stage (configure False (blur_settings 8)
        (configure True (blur_settings 4) new_stage_world))) = None"
proof -
  let ?w = "configure True (blur_settings 4) new_stage_world"
  have k: "effective_motionBlur (blur_settings 8) (stage ?w) = 8"
    by (simp add: effective_motionBlur_def blur_settings_def)
  from configure_moblur_kept [of True "blur_settings 8" ?w] k
  obtain m' where m': "moblurRenderer (stage (configure True (blur_settings 8) ?w)) = Some m'"
    by auto
  have sz: "size' (stage (configure True (blur_settings 8) ?w)) = Vector2_zero"
    by (simp add: configure_def Let_def configure_changed_result configure_moblur_result
      console_log_def effective_motionBlur_def blur_settings_def new_stage_world_def
      Stage_new_def configure_colorSpace_def configure_size_def exactlyEquals_def)
  from configure_moblur_kept [of True "blur_settings 8" ?w] m' k sz
  have "m' = \<lparr>moblurRef = 0, moblurSize = Vector2_zero, samples = 8\<rparr>"
    and "nextRef (configure True (blur_settings 8) ?w) = 1"
    by (simp_all add: configure_blur_new)
  moreover from configure_moblur_kept [of False "blur_settings 8" ?w]
  have "moblurRenderer (stage (configure False (blur_settings 8) ?w)) = None"
    by simp
  ultimately show ?thesis using m' by (simp add: configure_blur_new)
qed

end
